theory Spec2Isabelle
  imports Main
begin

section \<open>Data model\<close>

text \<open>
  The three front-end scripts (the push-driven page \<^verbatim>\<open>Web/js/main.js\<close>, the static page and
  the replay page, both in \<^verbatim>\<open>Web/frontend/js/main.js\<close>) share their data: a seat is an
  object \<^verbatim>\<open>{id, status}\<close>, a log entry is \<^verbatim>\<open>{t, msg}\<close>, and a raw snapshot is
  \<^verbatim>\<open>{timestamp, status_codes}\<close>.

  A status code is any value \<^verbatim>\<open>JSON.parse\<close> can give. \<open>JNum\<close> is a number with an integer
  value below \<open>10\<^sup>2\<^sup>1\<close> in magnitude; every other number is a \<open>JFrac\<close>, which carries the text
  that number converts to (it has a fraction point or an exponent).
\<close>

datatype json =
    JNull
  | JBool bool
  | JNum int
  | JFrac string
  | JStr string
  | JArr "json list"
  | JObj "(string \<times> json) list"

text \<open>
  What a lookup in \<^verbatim>\<open>STATUS_MAP\<close> can give, and so what the status of a seat can be: one of
  the three strings, or a member of \<^verbatim>\<open>Object.prototype\<close>, which is a built-in function
  (known by its name) or, under the key \<^verbatim>\<open>__proto__\<close>, the prototype object itself.
\<close>

datatype js_value = Str string | NativeFunction string | ObjectPrototype

text \<open>
  Strings are the UTF-8 bytes of the script's strings. The object \<^verbatim>\<open>status_codes\<close> is an
  association list in the order in which \<^verbatim>\<open>for ... in\<close> visits its own keys, so its keys are
  distinct in a snapshot that was parsed from JSON.
\<close>

record seat =
  id_seat :: string
  status :: js_value

record snapshot =
  timestamp :: string
  status_codes :: "(string \<times> json) list"

record log_entry =
  t_log :: string
  msg :: string

text \<open>
  The module-level variables of a page. \<^verbatim>\<open>currentSeatLogs\<close> is an object used as a
  dictionary from seat id to an array of entries; the ids that reach it are upper-cased, so
  none of them names a member of \<^verbatim>\<open>Object.prototype\<close>, and the object is a map. The replay
  page adds the frame list and its cursor. What the scripts write into the document (the
  summary cards, the seat colours, the sidebar) is never read back by this logic and is
  left out, but for the results of \<^verbatim>\<open>updateSummaryCards\<close> and \<^verbatim>\<open>renderLogList\<close>.
\<close>

record page =
  currentSeats :: "seat list"
  lastTimestamp :: string
  currentSeatLogs :: "string \<rightharpoonup> log_entry list"

record sim_page = page +
  simulationData :: "snapshot list"
  currentIndex :: nat

record counts =
  Occupied :: nat
  On_Hold :: nat
  Empty :: nat
  Total :: nat

datatype js_error = TypeError

datatype html = Placeholder | LogEntries "(string \<times> string) list"

section \<open>Values as property keys and as text\<close>

text \<open>The decimal digits of a natural number, as \<^verbatim>\<open>Number.prototype.toString\<close> writes them.\<close>

function decimal :: "nat \<Rightarrow> string" where
  "decimal n =
     (if n < 10 then [char_of (48 + n)]
      else decimal (n div 10) @ [char_of (48 + n mod 10)])"
  by pat_completeness auto
termination
  by (relation "measure (\<lambda>n. n)") auto

declare decimal.simps [simp del]

fun join_comma :: "string list \<Rightarrow> string" where
  "join_comma [] = []"
| "join_comma [x] = x"
| "join_comma (x # y # ys) = x @ CHR '','' # join_comma (y # ys)"

text \<open>
  The property key a status code becomes in \<^verbatim>\<open>STATUS_MAP[statusCode]\<close>: the key of a non-string
  is its conversion to a string. An array joins its elements with commas, \<^verbatim>\<open>null\<close> elements
  as empty strings; an object gives \<^verbatim>\<open>[object Object]\<close>.
\<close>

fun toPropertyKey :: "json \<Rightarrow> string" where
  "toPropertyKey JNull = ''null''"
| "toPropertyKey (JBool b) = (if b then ''true'' else ''false'')"
| "toPropertyKey (JNum n) = (if n < 0 then CHR ''-'' # decimal (nat (- n)) else decimal (nat n))"
| "toPropertyKey (JFrac digits) = digits"
| "toPropertyKey (JStr s) = s"
| "toPropertyKey (JArr xs) =
     join_comma (map (\<lambda>x. if x = JNull then [] else toPropertyKey x) xs)"
| "toPropertyKey (JObj members) = ''[object Object]''"

text \<open>
  A status in a template literal and as a property key: a string is itself, a built-in
  function gives its source text (as V8 prints it), the prototype object gives
  \<^verbatim>\<open>[object Object]\<close>.
\<close>

fun toStringValue :: "js_value \<Rightarrow> string" where
  "toStringValue (Str s) = s"
| "toStringValue (NativeFunction name) = ''function '' @ name @ ''() { [native code] }''"
| "toStringValue ObjectPrototype = ''[object Object]''"

text \<open>What \<^verbatim>\<open>if (value)\<close> takes as true: every function and object, and every non-empty string.\<close>

fun truthy :: "js_value \<Rightarrow> bool" where
  "truthy (Str s) = (s \<noteq> [])"
| "truthy (NativeFunction name) = True"
| "truthy ObjectPrototype = True"

section \<open>Snapshot normalizer\<close>

text \<open>
  The members every plain object inherits from \<^verbatim>\<open>Object.prototype\<close> in a browser. The member
  \<^verbatim>\<open>constructor\<close> is the function \<^verbatim>\<open>Object\<close>; the others are functions named like their key.
\<close>

definition inherited_functions :: "string list" where
  "inherited_functions =
     [''hasOwnProperty'', ''isPrototypeOf'', ''propertyIsEnumerable'', ''toLocaleString'',
      ''toString'', ''valueOf'', ''__defineGetter__'', ''__defineSetter__'',
      ''__lookupGetter__'', ''__lookupSetter__'']"

definition object_prototype :: "string \<Rightarrow> js_value option" where
  "object_prototype key =
     (if key = ''constructor'' then Some (NativeFunction ''Object'')
      else if key \<in> set inherited_functions then Some (NativeFunction key)
      else if key = ''__proto__'' then Some ObjectPrototype
      else None)"

text \<open>
  \<^verbatim>\<open>STATUS_MAP[key]\<close>: the object literal has the own keys 1, 2 and 3; any other key is looked
  up along the prototype chain. \<open>None\<close> is \<^verbatim>\<open>undefined\<close>.
\<close>

definition STATUS_MAP :: "string \<Rightarrow> js_value option" where
  "STATUS_MAP key =
     (if key = ''1'' then Some (Str ''Occupied'')
      else if key = ''2'' then Some (Str ''On-Hold'')
      else if key = ''3'' then Some (Str ''Empty'')
      else object_prototype key)"

text \<open>
  \<^verbatim>\<open>String.prototype.toUpperCase\<close> maps a string code point by code point. On ASCII the
  letters a to z move to A to Z. The Unicode case table for the code points beyond ASCII is
  not part of the repository: it is the parameter \<open>U\<close>, which gives the upper-cased form of
  a run of such code points (bytes from 128 on).
\<close>

definition upper_char :: "char \<Rightarrow> char" where
  "upper_char c =
     (let n = (of_char c :: nat)
      in if 97 \<le> n \<and> n \<le> 122 then char_of (n - 32) else c)"

fun upperRuns :: "(string \<Rightarrow> string) \<Rightarrow> string \<Rightarrow> string \<Rightarrow> string" where
  "upperRuns U run [] = (if run = [] then [] else U run)"
| "upperRuns U run (c # cs) =
     (if (of_char c :: nat) < 128
      then (if run = [] then [] else U run) @ upper_char c # upperRuns U [] cs
      else upperRuns U (run @ [c]) cs)"

definition toUpperCase :: "(string \<Rightarrow> string) \<Rightarrow> string \<Rightarrow> string" where
  "toUpperCase U s = upperRuns U [] s"

text \<open>
  The \<^verbatim>\<open>for (const seatId in statusCodes)\<close> loop of \<^verbatim>\<open>processBackendData\<close>, with the array
  \<^verbatim>\<open>seatArray\<close> it pushes onto as accumulator. A key that \<^verbatim>\<open>STATUS_MAP\<close> does not have
  gives \<^verbatim>\<open>undefined\<close>, which \<^verbatim>\<open>if (statusString)\<close> skips.
\<close>

fun forIn_statusCodes ::
  "(string \<Rightarrow> string) \<Rightarrow> (string \<times> json) list \<Rightarrow> seat list \<Rightarrow> seat list" where
  "forIn_statusCodes U [] seatArray = seatArray"
| "forIn_statusCodes U ((seatId, statusCode) # rest) seatArray =
     (case STATUS_MAP (toPropertyKey statusCode) of
        None \<Rightarrow> forIn_statusCodes U rest seatArray
      | Some statusString \<Rightarrow>
          if truthy statusString
          then forIn_statusCodes U rest
                 (seatArray @ [\<lparr>id_seat = toUpperCase U seatId, status = statusString\<rparr>])
          else forIn_statusCodes U rest seatArray)"

definition processBackendData :: "(string \<Rightarrow> string) \<Rightarrow> snapshot \<Rightarrow> seat list \<times> string" where
  "processBackendData U jsonObject =
     (forIn_statusCodes U (status_codes jsonObject) [], timestamp jsonObject)"

section \<open>Aggregate counter\<close>

text \<open>
  The callback of \<^verbatim>\<open>data.forEach\<close> in \<^verbatim>\<open>updateSummaryCards\<close>: the counter named by the
  seat's status is incremented when \<^verbatim>\<open>counts\<close> has such a key of its own. \<^verbatim>\<open>Total\<close> is a key
  of \<^verbatim>\<open>counts\<close> too.
\<close>

definition countSeat :: "seat \<Rightarrow> counts \<Rightarrow> counts" where
  "countSeat s c =
     (let key = toStringValue (status s)
      in if key = ''Occupied'' then c\<lparr>Occupied := Occupied c + 1\<rparr>
         else if key = ''On-Hold'' then c\<lparr>On_Hold := On_Hold c + 1\<rparr>
         else if key = ''Empty'' then c\<lparr>Empty := Empty c + 1\<rparr>
         else if key = ''Total'' then c\<lparr>Total := Total c + 1\<rparr>
         else c)"

text \<open>The numbers \<^verbatim>\<open>updateSummaryCards\<close> writes into the summary cards and the title.\<close>

definition updateSummaryCards :: "seat list \<Rightarrow> counts" where
  "updateSummaryCards data =
     fold countSeat data \<lparr>Occupied = 0, On_Hold = 0, Empty = 0, Total = length data\<rparr>"

section \<open>Seat log store\<close>

text \<open>\<^verbatim>\<open>currentSeatLogs[seatId] || []\<close>: a stored array is truthy even when it is empty.\<close>

definition logsOf :: "(string \<rightharpoonup> log_entry list) \<Rightarrow> string \<Rightarrow> log_entry list" where
  "logsOf logs seatId = (case logs seatId of None \<Rightarrow> [] | Some l \<Rightarrow> l)"

text \<open>
  \<^verbatim>\<open>renderLogList\<close>: the new content of the element \<^verbatim>\<open>log-list\<close>, or \<open>None\<close> when the
  element is missing and the function returns at once.
\<close>

definition renderLogList :: "bool \<Rightarrow> (string \<rightharpoonup> log_entry list) \<Rightarrow> string \<Rightarrow> html option" where
  "renderLogList hasLogList logs seatId =
     (if \<not> hasLogList then None
      else let l = logsOf logs seatId
           in if length l = 0 then Some Placeholder
              else Some (LogEntries (map (\<lambda>entry. (t_log entry, msg entry)) l)))"

text \<open>
  \<^verbatim>\<open>addLogEntry\<close>. The two copies differ in the bytes between the two status names only
  (the arrow U+279D in the push-driven page, its mis-decoded form in the replay page), so
  the separator is a parameter. The sidebar refresh at its end writes to the document only.
\<close>

definition arrow :: string where
  "arrow = [CHR 0x20, CHR 0xE2, CHR 0x9E, CHR 0x9D, CHR 0x20]"

definition arrow_sim :: string where
  "arrow_sim = [CHR 0x20, CHR 0xC3, CHR 0xA2, CHR 0xC5, CHR 0xBE, CHR 0x20]"

definition addLogEntry ::
  "string \<Rightarrow> string \<Rightarrow> string \<Rightarrow> js_value \<Rightarrow> js_value \<Rightarrow> 'a page_scheme \<Rightarrow> 'a page_scheme" where
  "addLogEntry sep seatId ts oldStatus newStatus st =
     (let message = toStringValue oldStatus @ sep @ toStringValue newStatus;
          l = \<lparr>t_log = ts, msg = message\<rparr> # logsOf (currentSeatLogs st) seatId
      in st\<lparr>currentSeatLogs :=
              (currentSeatLogs st)(seatId \<mapsto> (if length l > 5 then take 5 l else l))\<rparr>)"

section \<open>Transition detection and the two drivers\<close>

text \<open>
  The guard both drivers put around \<^verbatim>\<open>addLogEntry\<close>: the first seat of the held list with
  the new seat's id exists and has another status. The result is the pair of the old and
  the new status.
\<close>

definition transitionOf :: "seat list \<Rightarrow> seat \<Rightarrow> (js_value \<times> js_value) option" where
  "transitionOf held newSeat =
     (case find (\<lambda>s. id_seat s = id_seat newSeat) held of
        None \<Rightarrow> None
      | Some oldSeat \<Rightarrow>
          if status oldSeat \<noteq> status newSeat then Some (status oldSeat, status newSeat)
          else None)"

text \<open>The callback of \<^verbatim>\<open>seatArray.forEach\<close>: only a change to Occupied is logged.\<close>

definition checkSeat :: "string \<Rightarrow> string \<Rightarrow> seat \<Rightarrow> 'a page_scheme \<Rightarrow> 'a page_scheme" where
  "checkSeat sep ts newSeat st =
     (case transitionOf (currentSeats st) newSeat of
        None \<Rightarrow> st
      | Some (oldStatus, newStatus) \<Rightarrow>
          if newStatus = Str ''Occupied''
          then addLogEntry sep (id_seat newSeat) ts oldStatus newStatus st
          else st)"

text \<open>The handler of the socket event \<^verbatim>\<open>status_update\<close> of the push-driven page.\<close>

definition status_update :: "(string \<Rightarrow> string) \<Rightarrow> snapshot \<Rightarrow> page \<Rightarrow> page" where
  "status_update U data st =
     (case processBackendData U data of
        (seatArray, ts) \<Rightarrow>
          (fold (checkSeat arrow ts) seatArray st)
            \<lparr>currentSeats := seatArray, lastTimestamp := ts\<rparr>)"

text \<open>Steps 2 to 5 of \<^verbatim>\<open>runUpdateStep\<close>, for the frame it has read.\<close>

definition applyFrame :: "(string \<Rightarrow> string) \<Rightarrow> snapshot \<Rightarrow> sim_page \<Rightarrow> sim_page" where
  "applyFrame U currentFrame st =
     (case processBackendData U currentFrame of
        (newSeatArray, newTimestamp) \<Rightarrow>
          (fold (checkSeat arrow_sim newTimestamp) newSeatArray st)
            \<lparr>currentSeats := newSeatArray, lastTimestamp := newTimestamp\<rparr>)"

text \<open>
  \<^verbatim>\<open>runUpdateStep\<close>. Reading \<^verbatim>\<open>simulationData[currentIndex]\<close> past the end gives
  \<^verbatim>\<open>undefined\<close>, and \<^verbatim>\<open>processBackendData\<close> throws a TypeError on its first property
  access, before anything is written.
\<close>

definition runUpdateStep :: "(string \<Rightarrow> string) \<Rightarrow> sim_page \<Rightarrow> js_error + sim_page" where
  "runUpdateStep U st =
     (if currentIndex st < length (simulationData st)
      then let st' = applyFrame U (simulationData st ! currentIndex st) st;
               i = currentIndex st' + 1
           in Inr (st'\<lparr>currentIndex := (if i \<ge> length (simulationData st') then 0 else i)\<rparr>)
      else Inl TypeError)"

text \<open>
  \<^verbatim>\<open>startSimulationLoop\<close>: \<open>None\<close> when the list is empty and the function returns without
  starting the timer.
\<close>

definition startSimulationLoop :: "(string \<Rightarrow> string) \<Rightarrow> sim_page \<Rightarrow> sim_page option" where
  "startSimulationLoop U st =
     (case simulationData st of
        [] \<Rightarrow> None
      | firstFrame # _ \<Rightarrow>
          (case processBackendData U firstFrame of
             (seatArray, ts) \<Rightarrow>
               Some (st\<lparr>currentSeats := seatArray, lastTimestamp := ts, currentIndex := 1\<rparr>)))"

text \<open>
  One firing of the interval timer: an exception thrown by the callback is reported and the
  timer goes on, with the variables as they were.
\<close>

definition intervalTick :: "(string \<Rightarrow> string) \<Rightarrow> sim_page \<Rightarrow> sim_page" where
  "intervalTick U st = (case runUpdateStep U st of Inl _ \<Rightarrow> st | Inr st' \<Rightarrow> st')"

primrec ticks :: "(string \<Rightarrow> string) \<Rightarrow> nat \<Rightarrow> sim_page \<Rightarrow> sim_page" where
  "ticks U 0 st = st"
| "ticks U (Suc n) st = intervalTick U (ticks U n st)"



text \<open>The variables as the scripts declare them.\<close>

definition initial_page :: page where
  "initial_page = \<lparr>currentSeats = [], lastTimestamp = ''---'', currentSeatLogs = Map.empty\<rparr>"

definition initial_sim :: "snapshot list \<Rightarrow> sim_page" where
  "initial_sim frames =
     \<lparr>currentSeats = [], lastTimestamp = ''---'', currentSeatLogs = Map.empty,
      simulationData = frames, currentIndex = 0\<rparr>"

text \<open>
  The transition events of a tick, in the order of the new seat list: one triple of seat id,
  old status and new status for each seat at which the guard of the drivers holds.
\<close>

definition transitions ::
  "seat list \<Rightarrow> seat list \<Rightarrow> (string \<times> js_value \<times> js_value) list" where
  "transitions held seatArray =
     concat (map (\<lambda>newSeat. case transitionOf held newSeat of
                               None \<Rightarrow> []
                             | Some (oldStatus, newStatus) \<Rightarrow>
                                 [(id_seat newSeat, oldStatus, newStatus)])
                 seatArray)"

text \<open>
  A sequence of record operations on the log store: calls of \<^verbatim>\<open>addLogEntry\<close> with seat id,
  timestamp, old and new status, in order, by the page whose separator is \<open>sep\<close>.
\<close>

definition recordAll ::
  "string \<Rightarrow> (string \<times> string \<times> js_value \<times> js_value) list \<Rightarrow> 'a page_scheme \<Rightarrow> 'a page_scheme" where
  "recordAll sep ops st =
     fold (\<lambda>(seatId, ts, oldStatus, newStatus). addLogEntry sep seatId ts oldStatus newStatus)
       ops st"

text \<open>
  The record operations a tick performs: one for each transition event of the tick whose
  new status is Occupied, in order, under the tick's timestamp.
\<close>

definition tickRecords ::
  "string \<Rightarrow> seat list \<Rightarrow> seat list \<Rightarrow> (string \<times> string \<times> js_value \<times> js_value) list" where
  "tickRecords ts held seatArray =
     map (\<lambda>(seatId, oldStatus, newStatus). (seatId, ts, oldStatus, newStatus))
       (filter (\<lambda>(seatId, oldStatus, newStatus). newStatus = Str ''Occupied'')
          (transitions held seatArray))"

text \<open>
  The record operations of a run of the push-driven page: those of each snapshot in turn,
  each against the seat list held when the snapshot arrives.
\<close>

fun history :: "(string \<Rightarrow> string) \<Rightarrow> snapshot list \<Rightarrow> page \<Rightarrow> (string \<times> string \<times> js_value \<times> js_value) list" where
  "history U [] st = []"
| "history U (data # rest) st =
     tickRecords (snd (processBackendData U data)) (currentSeats st) (fst (processBackendData U data))
       @ history U rest (status_update U data st)"

text \<open>
  The replay page after the frames are loaded and the timer has fired \<open>n\<close> times; \<open>None\<close>
  when the loop was never started.
\<close>

definition replay :: "(string \<Rightarrow> string) \<Rightarrow> snapshot list \<Rightarrow> nat \<Rightarrow> sim_page option" where
  "replay U frames n = map_option (ticks U n) (startSimulationLoop U (initial_sim frames))"

text \<open>Concrete inputs used below.\<close>

definition five_records :: "(string \<times> string \<times> js_value \<times> js_value) list" where
  "five_records =
     [(''A'', ''08:00:01'', Str ''Empty'', Str ''Occupied''),
      (''A'', ''08:00:02'', Str ''On-Hold'', Str ''Occupied''),
      (''A'', ''08:00:03'', Str ''Empty'', Str ''Occupied''),
      (''A'', ''08:00:04'', Str ''On-Hold'', Str ''Occupied''),
      (''A'', ''08:00:05'', Str ''Empty'', Str ''Occupied'')]"

definition toggle_snapshots :: "snapshot list" where
  "toggle_snapshots =
     [\<lparr>timestamp = ''08:00:00'', status_codes = [(''A'', JNum 3), (''B'', JNum 1)]\<rparr>,
      \<lparr>timestamp = ''08:00:01'', status_codes = [(''A'', JNum 1), (''B'', JNum 1), (''C'', JNum 3)]\<rparr>,
      \<lparr>timestamp = ''08:00:02'', status_codes = [(''A'', JNum 2), (''B'', JNum 1), (''C'', JNum 3)]\<rparr>]"

definition flapping_snapshots :: "snapshot list" where
  "flapping_snapshots =
     [\<lparr>timestamp = ''09:00:00'', status_codes = [(''A'', JNum 3)]\<rparr>,
      \<lparr>timestamp = ''09:00:01'', status_codes = [(''A'', JNum 1)]\<rparr>,
      \<lparr>timestamp = ''09:00:02'', status_codes = [(''A'', JNum 3)]\<rparr>,
      \<lparr>timestamp = ''09:00:03'', status_codes = [(''A'', JNum 1)]\<rparr>,
      \<lparr>timestamp = ''09:00:04'', status_codes = [(''A'', JNum 2)]\<rparr>,
      \<lparr>timestamp = ''09:00:05'', status_codes = [(''A'', JNum 1)]\<rparr>,
      \<lparr>timestamp = ''09:00:06'', status_codes = [(''A'', JNum 3)]\<rparr>,
      \<lparr>timestamp = ''09:00:07'', status_codes = [(''A'', JNum 1)]\<rparr>,
      \<lparr>timestamp = ''09:00:08'', status_codes = [(''A'', JNum 2)]\<rparr>,
      \<lparr>timestamp = ''09:00:09'', status_codes = [(''A'', JNum 1)]\<rparr>,
      \<lparr>timestamp = ''09:00:10'', status_codes = [(''A'', JNum 3)]\<rparr>,
      \<lparr>timestamp = ''09:00:11'', status_codes = [(''A'', JNum 1)]\<rparr>]"


definition vanish_snapshots :: "snapshot list" where
  "vanish_snapshots =
     [\<lparr>timestamp = ''10:00:00'', status_codes = [(''A'', JNum 3)]\<rparr>,
      \<lparr>timestamp = ''10:00:01'', status_codes = [(''A'', JNum 1)]\<rparr>,
      \<lparr>timestamp = ''10:00:02'', status_codes = [(''B'', JNum 3)]\<rparr>]"



definition unknown_code_snapshot :: snapshot where
  "unknown_code_snapshot =
     \<lparr>timestamp = ''08:00:01'', status_codes = [(''T1'', JNum 9), (''T2'', JNum 3)]\<rparr>"

definition colliding_snapshot :: snapshot where
  "colliding_snapshot =
     \<lparr>timestamp = ''08:00:02'', status_codes = [(''t1'', JNum 3), (''T1'', JNum 1)]\<rparr>"

definition constructor_snapshot :: snapshot where
  "constructor_snapshot =
     \<lparr>timestamp = ''12:00:00'', status_codes = [(''G'', JStr ''constructor'')]\<rparr>"

definition lower_case_snapshot :: snapshot where
  "lower_case_snapshot =
     \<lparr>timestamp = ''12:00:01'', status_codes = [(''t1'', JNum 9), (''t2'', JNum 3)]\<rparr>"

definition repeat_frames :: "snapshot list" where
  "repeat_frames =
     [\<lparr>timestamp = ''13:00:00'', status_codes = [(''A'', JNum 3), (''B'', JNum 1)]\<rparr>,
      \<lparr>timestamp = ''13:00:01'', status_codes = [(''A'', JNum 1), (''B'', JNum 1)]\<rparr>,
      \<lparr>timestamp = ''13:00:01'', status_codes = [(''A'', JNum 1), (''B'', JNum 1)]\<rparr>]"

definition repeat_start :: sim_page where
  "repeat_start =
     \<lparr>currentSeats = [\<lparr>id_seat = ''A'', status = Str ''Empty''\<rparr>, \<lparr>id_seat = ''B'', status = Str ''Occupied''\<rparr>],
      lastTimestamp = ''13:00:00'', currentSeatLogs = Map.empty,
      simulationData = repeat_frames, currentIndex = 1\<rparr>"

text \<open>
  A case table that leaves every run as it is. The concrete inputs here have ASCII keys,
  for which no table is consulted.
\<close>

definition unchanged_table :: "string \<Rightarrow> string" where
  "unchanged_table run = run"

section \<open>The normalizer and the counter\<close>

lemma STATUS_MAP_truthy: "STATUS_MAP key = Some v \<Longrightarrow> truthy v"
  by (auto simp: STATUS_MAP_def object_prototype_def split: if_splits)

lemma forIn_statusCodes_acc:
  "forIn_statusCodes U codes acc =
     acc @ map (\<lambda>(k, c). \<lparr>id_seat = toUpperCase U k, status = the (STATUS_MAP (toPropertyKey c))\<rparr>)
             (filter (\<lambda>(k, c). STATUS_MAP (toPropertyKey c) \<noteq> None) codes)"
  by (induction U codes acc rule: forIn_statusCodes.induct)
     (auto simp: STATUS_MAP_truthy split: option.splits)

text \<open>
  The digits of a number never spell a member of the prototype, and they spell 1, 2 or 3
  for these three numbers only.
\<close>

lemma decimal_digit: "(n::nat) < 10 \<Longrightarrow> decimal n = [char_of (48 + n)]"
  by (subst decimal.simps) simp

lemma decimal_not_empty: "decimal n \<noteq> []"
  by (subst decimal.simps) simp

lemma digit_chars:
  "char_of (48::nat) = CHR ''0''" "char_of (49::nat) = CHR ''1''" "char_of (50::nat) = CHR ''2''"
  "char_of (51::nat) = CHR ''3''" "char_of (52::nat) = CHR ''4''" "char_of (53::nat) = CHR ''5''"
  "char_of (54::nat) = CHR ''6''" "char_of (55::nat) = CHR ''7''" "char_of (56::nat) = CHR ''8''"
  "char_of (57::nat) = CHR ''9''"
  by code_simp+

lemma small_cases: "n < 10 \<Longrightarrow> n \<in> {0, 1, 2, 3, 4, 5, 6, 7, 8, 9::nat}"
  by auto

lemma decimal_hd: "hd (decimal n) \<in> set ''0123456789''"
proof (induction n rule: decimal.induct)
  case (1 n)
  show ?case
  proof (cases "n < 10")
    case True
    from small_cases [OF True] show ?thesis
      by (auto simp: decimal_digit digit_chars)
  next
    case False
    with 1 have "hd (decimal (n div 10)) \<in> set ''0123456789''" by simp
    with False show ?thesis
      by (subst decimal.simps) (simp add: decimal_not_empty)
  qed
qed

lemma decimal_long: "10 \<le> n \<Longrightarrow> 2 \<le> length (decimal n)"
proof -
  assume "10 \<le> n"
  then have "decimal n = decimal (n div 10) @ [char_of (48 + n mod 10)]"
    by (subst decimal.simps) simp
  moreover have "1 \<le> length (decimal (n div 10))"
    using decimal_not_empty [of "n div 10"] by (cases "decimal (n div 10)") auto
  ultimately show ?thesis by simp
qed

lemma digit_not_inherited:
  "c \<in> set ''0123456789'' \<Longrightarrow> object_prototype (c # cs) = None"
  by (auto simp: object_prototype_def inherited_functions_def)

lemma decimal_not_inherited: "object_prototype (decimal n) = None"
proof -
  obtain c cs where d: "decimal n = c # cs"
    using decimal_not_empty [of n] by (cases "decimal n") auto
  with decimal_hd [of n] have "c \<in> set ''0123456789''" by simp
  then show ?thesis
    unfolding d by (rule digit_not_inherited)
qed

lemma STATUS_MAP_digit:
  "(n::nat) < 10 \<Longrightarrow>
   STATUS_MAP [char_of (48 + n)] =
     (if n = 1 then Some (Str ''Occupied'')
      else if n = 2 then Some (Str ''On-Hold'')
      else if n = 3 then Some (Str ''Empty'')
      else None)"
proof -
  assume "(n::nat) < 10"
  from small_cases [OF this] show ?thesis
    by (auto simp: digit_chars STATUS_MAP_def digit_not_inherited)
qed

lemma STATUS_MAP_decimal:
  "STATUS_MAP (decimal n) =
     (if n = 1 then Some (Str ''Occupied'')
      else if n = 2 then Some (Str ''On-Hold'')
      else if n = 3 then Some (Str ''Empty'')
      else None)"
proof (cases "n < 10")
  case True
  then show ?thesis
    by (simp only: decimal_digit STATUS_MAP_digit)
next
  case False
  then have "2 \<le> length (decimal n)" by (simp add: decimal_long)
  then have "decimal n \<noteq> ''1''" "decimal n \<noteq> ''2''" "decimal n \<noteq> ''3''"
    by auto
  with False show ?thesis
    by (simp add: STATUS_MAP_def decimal_not_inherited)
qed

lemma minus_not_known: "STATUS_MAP (CHR ''-'' # cs) = None"
  by (simp add: STATUS_MAP_def object_prototype_def inherited_functions_def)

lemma STATUS_MAP_JNum:
  "STATUS_MAP (toPropertyKey (JNum n)) =
     (if n = 1 then Some (Str ''Occupied'')
      else if n = 2 then Some (Str ''On-Hold'')
      else if n = 3 then Some (Str ''Empty'')
      else None)"
proof (cases "n < 0")
  case True
  then show ?thesis
    by (simp add: minus_not_known)
next
  case False
  then have "nat n = 1 \<longleftrightarrow> n = 1" "nat n = 2 \<longleftrightarrow> n = 2" "nat n = 3 \<longleftrightarrow> n = 3"
    by auto
  with False show ?thesis
    by (simp add: STATUS_MAP_decimal)
qed

text \<open>
  On a snapshot all of whose status codes are integers the normalizer keeps exactly the
  entries with code 1, 2 or 3, with the seat id upper-cased, and the counts add up.
\<close>

lemma normalizer_on_integer_codes:
  assumes "\<And>k c. (k, c) \<in> set (status_codes data) \<Longrightarrow> \<exists>n. c = JNum n"
  shows "fst (processBackendData U data)
     = map (\<lambda>(k, c). \<lparr>id_seat = toUpperCase U k,
                      status = (if c = JNum 1 then Str ''Occupied''
                                else if c = JNum 2 then Str ''On-Hold'' else Str ''Empty'')\<rparr>)
           (filter (\<lambda>(k, c). c \<in> {JNum 1, JNum 2, JNum 3}) (status_codes data))"
proof -
  have f: "filter (\<lambda>(k, c). STATUS_MAP (toPropertyKey c) \<noteq> None) (status_codes data)
           = filter (\<lambda>(k, c). c \<in> {JNum 1, JNum 2, JNum 3}) (status_codes data)"
  proof (rule filter_cong [OF refl])
    fix x assume x: "x \<in> set (status_codes data)"
    obtain k c where kc: "x = (k, c)" by (cases x)
    with x assms obtain n where "c = JNum n" by blast
    with kc have "x = (k, JNum n)" by simp
    then show "(case x of (k, c) \<Rightarrow> STATUS_MAP (toPropertyKey c) \<noteq> None)
               = (case x of (k, c) \<Rightarrow> c \<in> {JNum 1, JNum 2, JNum 3})"
      by (simp add: STATUS_MAP_JNum del: toPropertyKey.simps)
  qed
  have m: "map (\<lambda>(k, c). \<lparr>id_seat = toUpperCase U k, status = the (STATUS_MAP (toPropertyKey c))\<rparr>)
             (filter (\<lambda>(k, c). c \<in> {JNum 1, JNum 2, JNum 3}) (status_codes data))
         = map (\<lambda>(k, c). \<lparr>id_seat = toUpperCase U k,
                      status = (if c = JNum 1 then Str ''Occupied''
                                else if c = JNum 2 then Str ''On-Hold'' else Str ''Empty'')\<rparr>)
             (filter (\<lambda>(k, c). c \<in> {JNum 1, JNum 2, JNum 3}) (status_codes data))"
    by (rule map_cong [OF refl]) (auto simp: STATUS_MAP_JNum simp del: toPropertyKey.simps)
  have "fst (processBackendData U data)
        = map (\<lambda>(k, c). \<lparr>id_seat = toUpperCase U k, status = the (STATUS_MAP (toPropertyKey c))\<rparr>)
            (filter (\<lambda>(k, c). STATUS_MAP (toPropertyKey c) \<noteq> None) (status_codes data))"
    by (simp only: processBackendData_def fst_conv forIn_statusCodes_acc append_Nil)
  also have "\<dots>
        = map (\<lambda>(k, c). \<lparr>id_seat = toUpperCase U k, status = the (STATUS_MAP (toPropertyKey c))\<rparr>)
            (filter (\<lambda>(k, c). c \<in> {JNum 1, JNum 2, JNum 3}) (status_codes data))"
    by (simp only: f)
  also note m
  finally show ?thesis .
qed

lemma fold_countSeat_sum:
  "(\<And>s. s \<in> set xs \<Longrightarrow>
      status s = Str ''Occupied'' \<or> status s = Str ''On-Hold'' \<or> status s = Str ''Empty'') \<Longrightarrow>
   Occupied (fold countSeat xs c) + On_Hold (fold countSeat xs c) + Empty (fold countSeat xs c)
     = Occupied c + On_Hold c + Empty c + length xs
   \<and> Total (fold countSeat xs c) = Total c"
proof (induction xs arbitrary: c)
  case Nil
  then show ?case by simp
next
  case (Cons x xs)
  have x: "status x = Str ''Occupied'' \<or> status x = Str ''On-Hold'' \<or> status x = Str ''Empty''"
    using Cons.prems by simp
  have rest: "\<And>s. s \<in> set xs \<Longrightarrow>
      status s = Str ''Occupied'' \<or> status s = Str ''On-Hold'' \<or> status s = Str ''Empty''"
    using Cons.prems by simp
  from x Cons.IH [OF rest, of "countSeat x c"] show ?case
    by (auto simp: countSeat_def)
qed

lemma counts_on_integer_codes:
  assumes "\<And>k c. (k, c) \<in> set (status_codes data) \<Longrightarrow> \<exists>n. c = JNum n"
  shows "Occupied (updateSummaryCards (fst (processBackendData U data)))
     + On_Hold (updateSummaryCards (fst (processBackendData U data)))
     + Empty (updateSummaryCards (fst (processBackendData U data)))
     = Total (updateSummaryCards (fst (processBackendData U data)))
   \<and> Total (updateSummaryCards (fst (processBackendData U data)))
     = length (fst (processBackendData U data))"
proof -
  let ?xs = "fst (processBackendData U data)"
  let ?c0 = "\<lparr>Occupied = 0, On_Hold = 0, Empty = 0, Total = length ?xs\<rparr>"
  have st: "\<And>s. s \<in> set ?xs \<Longrightarrow>
      status s = Str ''Occupied'' \<or> status s = Str ''On-Hold'' \<or> status s = Str ''Empty''"
  proof -
    fix s assume "s \<in> set ?xs"
    then have "s \<in> set (map (\<lambda>(k, c). \<lparr>id_seat = toUpperCase U k,
                      status = (if c = JNum 1 then Str ''Occupied''
                                else if c = JNum 2 then Str ''On-Hold'' else Str ''Empty'')\<rparr>)
           (filter (\<lambda>(k, c). c \<in> {JNum 1, JNum 2, JNum 3}) (status_codes data)))"
      by (simp only: normalizer_on_integer_codes [OF assms])
    then obtain k :: string and c where "c \<in> {JNum 1, JNum 2, JNum 3}"
      and "s = \<lparr>id_seat = toUpperCase U k,
                status = (if c = JNum 1 then Str ''Occupied''
                          else if c = JNum 2 then Str ''On-Hold'' else Str ''Empty'')\<rparr>"
      by auto
    then show "status s = Str ''Occupied'' \<or> status s = Str ''On-Hold'' \<or> status s = Str ''Empty''"
      by auto
  qed
  have "Occupied (fold countSeat ?xs ?c0) + On_Hold (fold countSeat ?xs ?c0)
          + Empty (fold countSeat ?xs ?c0)
        = Occupied ?c0 + On_Hold ?c0 + Empty ?c0 + length ?xs
        \<and> Total (fold countSeat ?xs ?c0) = Total ?c0"
    by (rule fold_countSeat_sum) (rule st)
  then show ?thesis
    by (simp add: updateSummaryCards_def)
qed

text \<open>
  C5. The counts do not always add up. For the snapshot whose only seat G has the status
  code \<^verbatim>\<open>"constructor"\<close>, the lookup in \<^verbatim>\<open>STATUS_MAP\<close> finds the inherited member
  \<^verbatim>\<open>constructor\<close>, the seat is kept with a function as its status, and
  \<^verbatim>\<open>updateSummaryCards\<close> counts it in Total and under no status: Total is 1 and the three
  counters are 0.
\<close>

theorem inherited_code_breaks_the_counts:
  "toPropertyKey (JStr ''constructor'') \<notin> {''1'', ''2'', ''3''}
   \<and> fst (processBackendData U constructor_snapshot)
       = [\<lparr>id_seat = ''G'', status = NativeFunction ''Object''\<rparr>]
   \<and> updateSummaryCards (fst (processBackendData U constructor_snapshot))
       = \<lparr>Occupied = 0, On_Hold = 0, Empty = 0, Total = 1\<rparr>"
  by code_simp

text \<open>
  C6. The normalizer does not exclude every entry whose code is not 1, 2 or 3. Status codes
  are looked up by property key along the prototype chain: the snapshot whose seat G has
  the code \<^verbatim>\<open>"constructor"\<close> is normalized to the seat G with the function \<^verbatim>\<open>Object\<close> as its
  status. On the snapshots of the claim's kind the code does what the claim says: T1 at
  code 9 and T2 at code 3 give the single seat T2, Empty, with a total of 1, and the keys t1
  and t2 in lower case give the same seat id T2.
\<close>

theorem inherited_code_is_not_excluded:
  "STATUS_MAP (toPropertyKey (JStr ''constructor'')) = Some (NativeFunction ''Object'')
   \<and> fst (processBackendData U constructor_snapshot)
       = [\<lparr>id_seat = ''G'', status = NativeFunction ''Object''\<rparr>]
   \<and> fst (processBackendData U unknown_code_snapshot)
       = [\<lparr>id_seat = ''T2'', status = Str ''Empty''\<rparr>]
   \<and> Total (updateSummaryCards (fst (processBackendData U unknown_code_snapshot))) = 1
   \<and> fst (processBackendData U lower_case_snapshot)
       = [\<lparr>id_seat = ''T2'', status = Str ''Empty''\<rparr>]"
  by code_simp

text \<open>
  C9. The snapshot whose status codes have the two distinct keys t1 and T1 is normalized to
  two seats with the same id T1: nothing is deduplicated, the total is 2, and each of the
  two seats is counted under its status.
\<close>

theorem case_colliding_keys_both_kept:
  "distinct (map fst (status_codes colliding_snapshot))
   \<and> fst (processBackendData U colliding_snapshot)
       = [\<lparr>id_seat = ''T1'', status = Str ''Empty''\<rparr>, \<lparr>id_seat = ''T1'', status = Str ''Occupied''\<rparr>]
   \<and> updateSummaryCards (fst (processBackendData U colliding_snapshot))
       = \<lparr>Occupied = 1, On_Hold = 0, Empty = 1, Total = 2\<rparr>"
  by code_simp

section \<open>The log store\<close>

lemma addLogEntry_currentSeats [simp]:
  "currentSeats (addLogEntry sep seatId ts old new st) = currentSeats st"
  by (simp add: addLogEntry_def Let_def)

lemma addLogEntry_lastTimestamp [simp]:
  "lastTimestamp (addLogEntry sep seatId ts old new st) = lastTimestamp st"
  by (simp add: addLogEntry_def Let_def)

lemma addLogEntry_more [simp]:
  "page.more (addLogEntry sep seatId ts old new st) = page.more st"
  by (simp add: addLogEntry_def Let_def)

lemma addLogEntry_other:
  "seatId' \<noteq> seatId \<Longrightarrow>
   currentSeatLogs (addLogEntry sep seatId ts old new st) seatId' = currentSeatLogs st seatId'"
  by (simp add: addLogEntry_def Let_def)

lemma addLogEntry_same:
  "logsOf (currentSeatLogs (addLogEntry sep seatId ts old new st)) seatId =
     take 5 (\<lparr>t_log = ts, msg = toStringValue old @ sep @ toStringValue new\<rparr> # logsOf (currentSeatLogs st) seatId)"
  by (simp add: addLogEntry_def Let_def logsOf_def)

text \<open>
  C10. Recording an entry for seat \<open>s\<close> leaves the log of every other seat id as it was, and
  leaves the held seat list, the last timestamp and the replay variables as they were.
\<close>

theorem record_changes_one_log_only:
  assumes "s' \<noteq> s"
  shows "currentSeatLogs (addLogEntry sep s ts old new st) s' = currentSeatLogs st s'
    \<and> currentSeats (addLogEntry sep s ts old new st) = currentSeats st
    \<and> lastTimestamp (addLogEntry sep s ts old new st) = lastTimestamp st
    \<and> page.more (addLogEntry sep s ts old new st) = page.more st"
  using assms by (simp add: addLogEntry_def Let_def)

theorem record_changes_one_log_only_witness:
  "''B'' \<noteq> ''A''
   \<and> currentSeatLogs
        (addLogEntry arrow ''A'' ''08:00:06'' (Str ''Empty'') (Str ''Occupied'')
           (recordAll arrow [(''B'', ''08:00:01'', Str ''Empty'', Str ''Occupied'')]
              (initial_sim toggle_snapshots))) ''B''
       = Some [\<lparr>t_log = ''08:00:01'', msg = ''Empty'' @ arrow @ ''Occupied''\<rparr>]
   \<and> currentSeats
        (addLogEntry arrow ''A'' ''08:00:06'' (Str ''Empty'') (Str ''Occupied'')
           (recordAll arrow [(''B'', ''08:00:01'', Str ''Empty'', Str ''Occupied'')]
              (initial_sim toggle_snapshots))) = []
   \<and> lastTimestamp
        (addLogEntry arrow ''A'' ''08:00:06'' (Str ''Empty'') (Str ''Occupied'')
           (recordAll arrow [(''B'', ''08:00:01'', Str ''Empty'', Str ''Occupied'')]
              (initial_sim toggle_snapshots))) = ''---''
   \<and> simulationData
        (addLogEntry arrow ''A'' ''08:00:06'' (Str ''Empty'') (Str ''Occupied'')
           (recordAll arrow [(''B'', ''08:00:01'', Str ''Empty'', Str ''Occupied'')]
              (initial_sim toggle_snapshots))) = toggle_snapshots"
proof -
  have h: "''B'' \<noteq> ''A''" by simp
  have st: "currentSeatLogs
              (recordAll arrow [(''B'', ''08:00:01'', Str ''Empty'', Str ''Occupied'')]
                 (initial_sim toggle_snapshots)) ''B''
            = Some [\<lparr>t_log = ''08:00:01'', msg = ''Empty'' @ arrow @ ''Occupied''\<rparr>]"
    by (simp add: recordAll_def addLogEntry_def Let_def logsOf_def initial_sim_def)
  have rest: "currentSeats (recordAll arrow [(''B'', ''08:00:01'', Str ''Empty'', Str ''Occupied'')]
                 (initial_sim toggle_snapshots)) = []
     \<and> lastTimestamp (recordAll arrow [(''B'', ''08:00:01'', Str ''Empty'', Str ''Occupied'')]
                 (initial_sim toggle_snapshots)) = ''---''"
    by (simp add: recordAll_def initial_sim_def)
  have sd: "simulationData
        (addLogEntry arrow ''A'' ''08:00:06'' (Str ''Empty'') (Str ''Occupied'')
           (recordAll arrow [(''B'', ''08:00:01'', Str ''Empty'', Str ''Occupied'')]
              (initial_sim toggle_snapshots))) = toggle_snapshots"
    by (simp add: recordAll_def addLogEntry_def Let_def initial_sim_def)
  from record_changes_one_log_only [OF h, of arrow "''08:00:06''" "Str ''Empty''" "Str ''Occupied''"
      "recordAll arrow [(''B'', ''08:00:01'', Str ''Empty'', Str ''Occupied'')] (initial_sim toggle_snapshots)"]
    h st rest sd
  show ?thesis by simp
qed

lemma addLogEntry_bounded:
  assumes "\<And>s. length (logsOf (currentSeatLogs st) s) \<le> 5"
  shows "length (logsOf (currentSeatLogs (addLogEntry sep seatId ts old new st)) s') \<le> 5"
proof (cases "s' = seatId")
  case True
  then show ?thesis by (simp add: addLogEntry_same)
next
  case False
  then have "logsOf (currentSeatLogs (addLogEntry sep seatId ts old new st)) s'
             = logsOf (currentSeatLogs st) s'"
    by (simp add: logsOf_def addLogEntry_other)
  with assms show ?thesis by simp
qed

lemma recordAll_bounded:
  assumes "\<And>s. length (logsOf (currentSeatLogs st) s) \<le> 5"
  shows "length (logsOf (currentSeatLogs (recordAll sep ops st)) s') \<le> 5"
  using assms unfolding recordAll_def
proof (induction ops arbitrary: st s')
  case Nil
  then show ?case by simp
next
  case (Cons x xs)
  obtain a b c d where x: "x = (a, b, c, d)" by (cases x) auto
  have "\<And>s. length (logsOf (currentSeatLogs (addLogEntry sep a b c d st)) s) \<le> 5"
    by (rule addLogEntry_bounded) (rule Cons.prems)
  then show ?case by (simp add: x Cons.IH)
qed

section \<open>Ticks keep the logs bounded\<close>

lemma checkSeat_currentSeats [simp]:
  "currentSeats (checkSeat sep ts newSeat st) = currentSeats st"
  by (simp add: checkSeat_def split: option.splits prod.splits)

lemma checkSeat_lastTimestamp [simp]:
  "lastTimestamp (checkSeat sep ts newSeat st) = lastTimestamp st"
  by (simp add: checkSeat_def split: option.splits prod.splits)

lemma checkSeat_more [simp]:
  "page.more (checkSeat sep ts newSeat st) = page.more st"
  by (simp add: checkSeat_def split: option.splits prod.splits)

lemma fold_checkSeat_currentSeats [simp]:
  "currentSeats (fold (checkSeat sep ts) xs st) = currentSeats st"
  by (induction xs arbitrary: st) simp_all

lemma fold_checkSeat_lastTimestamp [simp]:
  "lastTimestamp (fold (checkSeat sep ts) xs st) = lastTimestamp st"
  by (induction xs arbitrary: st) simp_all

lemma fold_checkSeat_more [simp]:
  "page.more (fold (checkSeat sep ts) xs st) = page.more st"
  by (induction xs arbitrary: st) simp_all

lemma checkSeat_bounded:
  assumes "\<And>s. length (logsOf (currentSeatLogs st) s) \<le> 5"
  shows "length (logsOf (currentSeatLogs (checkSeat sep ts newSeat st)) s') \<le> 5"
  using assms by (auto simp: checkSeat_def intro: addLogEntry_bounded split: option.splits)

lemma fold_checkSeat_bounded:
  assumes "\<And>s. length (logsOf (currentSeatLogs st) s) \<le> 5"
  shows "length (logsOf (currentSeatLogs (fold (checkSeat sep ts) xs st)) s') \<le> 5"
  using assms
proof (induction xs arbitrary: st s')
  case Nil
  then show ?case by simp
next
  case (Cons x xs)
  have "\<And>s. length (logsOf (currentSeatLogs (checkSeat sep ts x st)) s) \<le> 5"
    by (rule checkSeat_bounded) (rule Cons.prems)
  then show ?case by (simp add: Cons.IH)
qed

lemma status_update_bounded:
  assumes "\<And>s. length (logsOf (currentSeatLogs st) s) \<le> 5"
  shows "length (logsOf (currentSeatLogs (status_update U data st)) s') \<le> 5"
  using assms by (simp add: status_update_def fold_checkSeat_bounded split: prod.splits)

lemma fold_status_update_bounded:
  assumes "\<And>s. length (logsOf (currentSeatLogs st) s) \<le> 5"
  shows "length (logsOf (currentSeatLogs (fold (status_update U) snaps st)) s') \<le> 5"
  using assms
proof (induction snaps arbitrary: st s')
  case Nil
  then show ?case by simp
next
  case (Cons d ds)
  have "\<And>s. length (logsOf (currentSeatLogs (status_update U d st)) s) \<le> 5"
    by (rule status_update_bounded) (rule Cons.prems)
  then show ?case by (simp add: Cons.IH)
qed

lemma applyFrame_bounded:
  assumes "\<And>s. length (logsOf (currentSeatLogs st) s) \<le> 5"
  shows "length (logsOf (currentSeatLogs (applyFrame U frame st)) s') \<le> 5"
  using assms by (simp add: applyFrame_def fold_checkSeat_bounded split: prod.splits)

lemma intervalTick_bounded:
  assumes "\<And>s. length (logsOf (currentSeatLogs st) s) \<le> 5"
  shows "length (logsOf (currentSeatLogs (intervalTick U st)) s') \<le> 5"
  using assms
  by (simp add: intervalTick_def runUpdateStep_def Let_def applyFrame_bounded)

lemma ticks_bounded:
  assumes "\<And>s. length (logsOf (currentSeatLogs st) s) \<le> 5"
  shows "length (logsOf (currentSeatLogs (ticks U n st)) s') \<le> 5"
  using assms
proof (induction n arbitrary: s')
  case 0
  then show ?case by simp
next
  case (Suc n)
  have "\<And>s. length (logsOf (currentSeatLogs (ticks U n st)) s) \<le> 5"
    by (rule Suc.IH) (rule Suc.prems)
  then show ?case by (simp add: intervalTick_bounded)
qed

lemma startSimulationLoop_logs:
  "startSimulationLoop U st = Some s0 \<Longrightarrow> currentSeatLogs s0 = currentSeatLogs st"
  by (auto simp: startSimulationLoop_def split: list.splits prod.splits)

text \<open>
  C3. For every seat, after every sequence of snapshots handled by the push-driven page,
  after every number of timer ticks of the replay page, and after every sequence of record
  operations, each starting from the empty log store, the seat's log has at most 5 entries;
  recording into a log of 5 entries puts the new entry first and drops the last, oldest one.
\<close>

theorem seat_log_never_exceeds_five:
  assumes "length (logsOf (currentSeatLogs st) seatId) = 5"
  shows "length (logsOf (currentSeatLogs (fold (status_update U) snaps initial_page)) s) \<le> 5
    \<and> (case replay U frames n of None \<Rightarrow> True
        | Some sim \<Rightarrow> length (logsOf (currentSeatLogs sim) s) \<le> 5)
    \<and> length (logsOf (currentSeatLogs (recordAll arrow ops initial_page)) s) \<le> 5
    \<and> logsOf (currentSeatLogs (addLogEntry sep seatId ts old new st)) seatId
        = \<lparr>t_log = ts, msg = toStringValue old @ sep @ toStringValue new\<rparr> # butlast (logsOf (currentSeatLogs st) seatId)"
proof -
  have init: "\<And>s. length (logsOf (currentSeatLogs initial_page) s) \<le> 5"
    by (simp add: initial_page_def logsOf_def)
  have a: "length (logsOf (currentSeatLogs (fold (status_update U) snaps initial_page)) s) \<le> 5"
    by (rule fold_status_update_bounded) (rule init)
  have b: "case replay U frames n of None \<Rightarrow> True
        | Some sim \<Rightarrow> length (logsOf (currentSeatLogs sim) s) \<le> 5"
  proof (cases "startSimulationLoop U (initial_sim frames)")
    case None
    then show ?thesis by (simp add: replay_def)
  next
    case (Some s0)
    have "currentSeatLogs s0 = Map.empty"
      using startSimulationLoop_logs [OF Some] by (simp add: initial_sim_def)
    then have "\<And>s. length (logsOf (currentSeatLogs s0) s) \<le> 5"
      by (simp add: logsOf_def)
    then have "length (logsOf (currentSeatLogs (ticks U n s0)) s) \<le> 5"
      by (rule ticks_bounded)
    with Some show ?thesis by (simp add: replay_def)
  qed
  have c: "length (logsOf (currentSeatLogs (recordAll arrow ops initial_page)) s) \<le> 5"
    by (rule recordAll_bounded) (rule init)
  have d: "logsOf (currentSeatLogs (addLogEntry sep seatId ts old new st)) seatId
        = \<lparr>t_log = ts, msg = toStringValue old @ sep @ toStringValue new\<rparr> # butlast (logsOf (currentSeatLogs st) seatId)"
    using assms by (simp add: addLogEntry_same butlast_conv_take)
  from a b c d show ?thesis by blast
qed

theorem seat_log_never_exceeds_five_witness:
  "length (logsOf (currentSeatLogs (recordAll arrow five_records initial_page)) ''A'') = 5
   \<and> length (logsOf (currentSeatLogs (fold (status_update unchanged_table) flapping_snapshots initial_page)) ''A'') \<le> 5
   \<and> (case replay unchanged_table flapping_snapshots 13 of None \<Rightarrow> True
        | Some sim \<Rightarrow> length (logsOf (currentSeatLogs sim) ''A'') \<le> 5)
   \<and> logsOf (currentSeatLogs
        (addLogEntry arrow ''A'' ''08:00:06'' (Str ''On-Hold'') (Str ''Occupied'')
           (recordAll arrow five_records initial_page))) ''A''
       = [\<lparr>t_log = ''08:00:06'', msg = ''On-Hold'' @ arrow @ ''Occupied''\<rparr>,
          \<lparr>t_log = ''08:00:05'', msg = ''Empty'' @ arrow @ ''Occupied''\<rparr>,
          \<lparr>t_log = ''08:00:04'', msg = ''On-Hold'' @ arrow @ ''Occupied''\<rparr>,
          \<lparr>t_log = ''08:00:03'', msg = ''Empty'' @ arrow @ ''Occupied''\<rparr>,
          \<lparr>t_log = ''08:00:02'', msg = ''On-Hold'' @ arrow @ ''Occupied''\<rparr>]"
proof -
  have h: "length (logsOf (currentSeatLogs (recordAll arrow five_records initial_page)) ''A'') = 5"
    by code_simp
  have old: "logsOf (currentSeatLogs (recordAll arrow five_records initial_page)) ''A''
     = [\<lparr>t_log = ''08:00:05'', msg = ''Empty'' @ arrow @ ''Occupied''\<rparr>,
        \<lparr>t_log = ''08:00:04'', msg = ''On-Hold'' @ arrow @ ''Occupied''\<rparr>,
        \<lparr>t_log = ''08:00:03'', msg = ''Empty'' @ arrow @ ''Occupied''\<rparr>,
        \<lparr>t_log = ''08:00:02'', msg = ''On-Hold'' @ arrow @ ''Occupied''\<rparr>,
        \<lparr>t_log = ''08:00:01'', msg = ''Empty'' @ arrow @ ''Occupied''\<rparr>]"
    by code_simp
  from seat_log_never_exceeds_five
      [OF h, where U = unchanged_table and snaps = flapping_snapshots and s = "''A''"
         and frames = flapping_snapshots and n = 13 and ops = "[]" and sep = arrow
         and ts = "''08:00:06''" and old = "Str ''On-Hold''" and new = "Str ''Occupied''"]
    h old
  show ?thesis by simp
qed

section \<open>What a tick records\<close>


lemma checkSeat_logs_unchanged:
  assumes "\<And>f. id_seat newSeat = sid \<Longrightarrow>
             transitionOf (currentSeats st) newSeat \<noteq> Some (f, Str ''Occupied'')"
  shows "currentSeatLogs (checkSeat sep ts newSeat st) sid = currentSeatLogs st sid"
proof (cases "transitionOf (currentSeats st) newSeat")
  case None
  then show ?thesis by (simp add: checkSeat_def)
next
  case (Some p)
  obtain f t where p: "p = (f, t)" by (cases p)
  show ?thesis
  proof (cases "t = Str ''Occupied''")
    case True
    with Some p assms have "id_seat newSeat \<noteq> sid" by auto
    then show ?thesis
      using Some p by (simp add: checkSeat_def addLogEntry_other)
  next
    case False
    then show ?thesis using Some p by (simp add: checkSeat_def)
  qed
qed

lemma fold_checkSeat_logs_unchanged:
  assumes "\<And>s f. s \<in> set xs \<Longrightarrow> id_seat s = sid \<Longrightarrow>
             transitionOf (currentSeats st) s \<noteq> Some (f, Str ''Occupied'')"
  shows "currentSeatLogs (fold (checkSeat sep ts) xs st) sid = currentSeatLogs st sid"
  using assms
proof (induction xs arbitrary: st)
  case Nil
  then show ?case by simp
next
  case (Cons x xs)
  have step: "currentSeatLogs (checkSeat sep ts x st) sid = currentSeatLogs st sid"
    by (rule checkSeat_logs_unchanged) (simp add: Cons.prems)
  have "currentSeatLogs (fold (checkSeat sep ts) xs (checkSeat sep ts x st)) sid
        = currentSeatLogs (checkSeat sep ts x st) sid"
    by (rule Cons.IH) (simp add: Cons.prems)
  with step show ?case by simp
qed


lemma checkSeat_sim [simp]:
  "simulationData (checkSeat sep ts newSeat st) = simulationData st"
  "currentIndex (checkSeat sep ts newSeat st) = currentIndex st"
  by (simp_all add: checkSeat_def addLogEntry_def Let_def split: option.splits prod.splits)

lemma fold_checkSeat_sim [simp]:
  "simulationData (fold (checkSeat sep ts) xs st) = simulationData st"
  "currentIndex (fold (checkSeat sep ts) xs st) = currentIndex st"
  by (induction xs arbitrary: st) simp_all

lemma applyFrame_sim [simp]:
  "simulationData (applyFrame U frame st) = simulationData st"
  "currentIndex (applyFrame U frame st) = currentIndex st"
  by (simp_all add: applyFrame_def split: prod.splits)



lemma status_update_logs:
  "currentSeatLogs (status_update U data st)
     = currentSeatLogs (fold (checkSeat arrow (snd (processBackendData U data)))
                          (fst (processBackendData U data)) st)"
  by (simp add: status_update_def split: prod.splits)

lemma status_update_currentSeats [simp]:
  "currentSeats (status_update U data st) = fst (processBackendData U data)"
  by (simp add: status_update_def split: prod.splits)

lemma applyFrame_currentSeats [simp]:
  "currentSeats (applyFrame U frame st) = fst (processBackendData U frame)"
  by (simp add: applyFrame_def split: prod.splits)


lemma recordAll_append:
  "recordAll sep (xs @ ys) st = recordAll sep ys (recordAll sep xs st)"
  by (simp add: recordAll_def)

lemma recordAll_currentSeats [simp]:
  "currentSeats (recordAll sep ops st) = currentSeats st"
  unfolding recordAll_def by (induction ops arbitrary: st) (simp_all split: prod.splits)

lemma tickRecords_Cons:
  "tickRecords ts held (x # xs) =
     (case transitionOf held x of
        None \<Rightarrow> []
      | Some (oldStatus, newStatus) \<Rightarrow>
          if newStatus = Str ''Occupied'' then [(id_seat x, ts, oldStatus, newStatus)] else [])
     @ tickRecords ts held xs"
  by (simp add: tickRecords_def transitions_def split: option.splits)

lemma checkSeat_recordAll:
  "checkSeat sep ts x st = recordAll sep (tickRecords ts (currentSeats st) [x]) st"
  by (simp add: checkSeat_def tickRecords_def transitions_def recordAll_def
      split: option.splits)

lemma fold_checkSeat_recordAll:
  "fold (checkSeat sep ts) xs st = recordAll sep (tickRecords ts (currentSeats st) xs) st"
proof (induction xs arbitrary: st)
  case Nil
  then show ?case by (simp add: tickRecords_def transitions_def recordAll_def)
next
  case (Cons x xs)
  have split: "tickRecords ts (currentSeats st) (x # xs)
          = tickRecords ts (currentSeats st) [x] @ tickRecords ts (currentSeats st) xs"
    by (simp add: tickRecords_def transitions_def)
  have "fold (checkSeat sep ts) (x # xs) st
        = fold (checkSeat sep ts) xs (checkSeat sep ts x st)"
    by simp
  also have "\<dots> = recordAll sep (tickRecords ts (currentSeats st) xs) (checkSeat sep ts x st)"
    by (simp add: Cons.IH)
  also have "\<dots> = recordAll sep (tickRecords ts (currentSeats st) xs)
                     (recordAll sep (tickRecords ts (currentSeats st) [x]) st)"
    by (simp add: checkSeat_recordAll)
  finally show ?case
    by (simp add: split recordAll_append)
qed

lemma recordAll_logs_cong:
  "currentSeatLogs st = currentSeatLogs st' \<Longrightarrow>
   currentSeatLogs (recordAll sep ops st) = currentSeatLogs (recordAll sep ops st')"
  unfolding recordAll_def
proof (induction ops arbitrary: st st')
  case Nil
  then show ?case by simp
next
  case (Cons x xs)
  obtain a b c d where x: "x = (a, b, c, d)" by (cases x) auto
  have "currentSeatLogs (addLogEntry sep a b c d st) = currentSeatLogs (addLogEntry sep a b c d st')"
    using Cons.prems by (simp add: addLogEntry_def Let_def)
  then show ?case
    by (simp add: x Cons.IH)
qed

lemma status_update_records:
  "currentSeatLogs (status_update U data st)
     = currentSeatLogs (recordAll arrow
         (tickRecords (snd (processBackendData U data)) (currentSeats st)
            (fst (processBackendData U data))) st)"
  by (simp add: status_update_logs fold_checkSeat_recordAll)


lemma fold_status_update_history:
  "currentSeatLogs (fold (status_update U) snaps st)
     = currentSeatLogs (recordAll arrow (history U snaps st) st)"
proof (induction snaps arbitrary: st)
  case Nil
  then show ?case by (simp add: recordAll_def)
next
  case (Cons d ds)
  let ?now = "tickRecords (snd (processBackendData U d)) (currentSeats st)
                (fst (processBackendData U d))"
  have "currentSeatLogs (fold (status_update U) (d # ds) st)
        = currentSeatLogs (recordAll arrow (history U ds (status_update U d st)) (status_update U d st))"
    by (simp add: Cons.IH)
  also have "\<dots> = currentSeatLogs (recordAll arrow (history U ds (status_update U d st))
                                       (recordAll arrow ?now st))"
    by (rule recordAll_logs_cong) (rule status_update_records)
  finally show ?case
    by (simp add: recordAll_append)
qed



section \<open>First appearance of a seat\<close>











section \<open>The same snapshot twice\<close>





lemma repeat_start_reached: "startSimulationLoop U (initial_sim repeat_frames) = Some repeat_start"
proof -
  have "processBackendData U
          \<lparr>timestamp = ''13:00:00'', status_codes = [(''A'', JNum 3), (''B'', JNum 1)]\<rparr>
        = ([\<lparr>id_seat = ''A'', status = Str ''Empty''\<rparr>,
            \<lparr>id_seat = ''B'', status = Str ''Occupied''\<rparr>], ''13:00:00'')"
    by code_simp
  then show ?thesis
    by (simp add: startSimulationLoop_def initial_sim_def repeat_frames_def repeat_start_def)
qed

lemma applyFrame_lastTimestamp [simp]:
  "lastTimestamp (applyFrame U frame st) = snd (processBackendData U frame)"
  by (simp add: applyFrame_def split: prod.splits)

lemma status_update_lastTimestamp [simp]:
  "lastTimestamp (status_update U data st) = snd (processBackendData U data)"
  by (simp add: status_update_def split: prod.splits)





section \<open>Querying the log of a seat\<close>

lemma recordAll_unrecorded:
  "seatId \<notin> fst ` set ops \<Longrightarrow>
   currentSeatLogs (recordAll sep ops st) seatId = currentSeatLogs st seatId"
  unfolding recordAll_def
proof (induction ops arbitrary: st)
  case Nil
  then show ?case by simp
next
  case (Cons x xs)
  obtain a b c d where x: "x = (a, b, c, d)" by (cases x) auto
  with Cons.prems have "seatId \<noteq> a" and rest: "seatId \<notin> fst ` set xs" by auto
  then show ?case by (simp add: x Cons.IH [OF rest] addLogEntry_other)
qed

lemma status_update_unseen:
  assumes "sid \<notin> id_seat ` set (fst (processBackendData U data))"
  shows "currentSeatLogs (status_update U data st) sid = currentSeatLogs st sid"
  unfolding status_update_logs
proof (rule fold_checkSeat_logs_unchanged)
  fix s f
  assume "s \<in> set (fst (processBackendData U data))" and "id_seat s = sid"
  with assms show "transitionOf (currentSeats st) s \<noteq> Some (f, Str ''Occupied'')" by force
qed

lemma fold_status_update_unseen:
  "(\<And>d. d \<in> set snaps \<Longrightarrow> sid \<notin> id_seat ` set (fst (processBackendData U d))) \<Longrightarrow>
   currentSeatLogs (fold (status_update U) snaps st) sid = currentSeatLogs st sid"
proof (induction snaps arbitrary: st)
  case Nil
  then show ?case by simp
next
  case (Cons d ds)
  have "currentSeatLogs (fold (status_update U) ds (status_update U d st)) sid
        = currentSeatLogs (status_update U d st) sid"
    by (rule Cons.IH) (simp add: Cons.prems)
  also have "\<dots> = currentSeatLogs st sid"
    by (rule status_update_unseen) (simp add: Cons.prems)
  finally show ?case by simp
qed

text \<open>
  C8, as the code has it. A seat id for which nothing was ever recorded has no key in the
  log store, whether or not the seat is in the held seat list: querying its log gives the
  empty sequence and \<^verbatim>\<open>renderLogList\<close> shows the placeholder, without failing. This holds
  after every sequence of record operations that does not name the seat, and after every
  sequence of snapshots handled by the push-driven page whose record operations do not name
  it.
\<close>

theorem unrecorded_seat_has_empty_log:
  assumes "seatId \<notin> fst ` set ops"
    and "seatId \<notin> fst ` set (history U snaps initial_page)"
  shows "currentSeatLogs (recordAll arrow ops (initial_page\<lparr>currentSeats := seats\<rparr>)) seatId = None
    \<and> logsOf (currentSeatLogs (recordAll arrow ops (initial_page\<lparr>currentSeats := seats\<rparr>))) seatId = []
    \<and> renderLogList True (currentSeatLogs (recordAll arrow ops (initial_page\<lparr>currentSeats := seats\<rparr>)))
          seatId = Some Placeholder
    \<and> currentSeatLogs (fold (status_update U) snaps initial_page) seatId = None
    \<and> logsOf (currentSeatLogs (fold (status_update U) snaps initial_page)) seatId = []
    \<and> renderLogList True (currentSeatLogs (fold (status_update U) snaps initial_page)) seatId
        = Some Placeholder"
proof -
  have a: "currentSeatLogs (recordAll arrow ops (initial_page\<lparr>currentSeats := seats\<rparr>)) seatId = None"
    by (simp add: recordAll_unrecorded [OF assms(1)] initial_page_def)
  have "currentSeatLogs (fold (status_update U) snaps initial_page) seatId
        = currentSeatLogs (recordAll arrow (history U snaps initial_page) initial_page) seatId"
    by (simp only: fold_status_update_history)
  also have "\<dots> = currentSeatLogs initial_page seatId"
    by (rule recordAll_unrecorded [OF assms(2)])
  also have "\<dots> = None"
    by (simp add: initial_page_def)
  finally have b: "currentSeatLogs (fold (status_update U) snaps initial_page) seatId = None" .
  from a b show ?thesis
    by (simp add: logsOf_def renderLogList_def)
qed

theorem unrecorded_seat_has_empty_log_witness:
  "''C'' \<notin> fst ` set five_records
   \<and> history unchanged_table toggle_snapshots initial_page = [(''A'', ''08:00:01'', Str ''Empty'', Str ''Occupied'')]
   \<and> ''C'' \<in> id_seat ` set (currentSeats (fold (status_update unchanged_table) toggle_snapshots initial_page))
   \<and> logsOf (currentSeatLogs (recordAll arrow five_records initial_page)) ''A'' \<noteq> []
   \<and> logsOf (currentSeatLogs
        (recordAll arrow five_records
           (initial_page\<lparr>currentSeats := [\<lparr>id_seat = ''A'', status = Str ''Occupied''\<rparr>]\<rparr>)))
        ''C'' = []
   \<and> renderLogList True (currentSeatLogs
        (recordAll arrow five_records
           (initial_page\<lparr>currentSeats := [\<lparr>id_seat = ''A'', status = Str ''Occupied''\<rparr>]\<rparr>)))
        ''C'' = Some Placeholder
   \<and> logsOf (currentSeatLogs (fold (status_update unchanged_table) toggle_snapshots initial_page)) ''C'' = []
   \<and> renderLogList True (currentSeatLogs (fold (status_update unchanged_table) toggle_snapshots initial_page))
        ''C'' = Some Placeholder"
proof -
  have hist: "history unchanged_table toggle_snapshots initial_page
              = [(''A'', ''08:00:01'', Str ''Empty'', Str ''Occupied'')]"
    by code_simp
  have h1: "''C'' \<notin> fst ` set five_records"
    by code_simp
  have h2: "''C'' \<notin> fst ` set (history unchanged_table toggle_snapshots initial_page)"
    unfolding hist by simp
  have e1: "''C'' \<in> id_seat ` set (currentSeats (fold (status_update unchanged_table) toggle_snapshots initial_page))"
    by code_simp
  have e2: "logsOf (currentSeatLogs (recordAll arrow five_records initial_page)) ''A'' \<noteq> []"
    by code_simp
  from unrecorded_seat_has_empty_log
         [OF h1 h2, of "[\<lparr>id_seat = ''A'', status = Str ''Occupied''\<rparr>]"]
    h1 hist e1 e2
  show ?thesis by simp
qed

text \<open>
  The claim C8 as written fails for a seat that is absent from the held seat list but was
  recorded before: the store is never pruned. After the snapshots A Empty, A Occupied and
  then B Empty alone, seat A is not in the held list and its log still has one entry.
\<close>

theorem vanished_seat_keeps_its_log:
  "''A'' \<notin> id_seat ` set (currentSeats (fold (status_update unchanged_table) vanish_snapshots initial_page))
   \<and> logsOf (currentSeatLogs (fold (status_update unchanged_table) vanish_snapshots initial_page)) ''A''
       = [\<lparr>t_log = ''10:00:01'', msg = ''Empty'' @ arrow @ ''Occupied''\<rparr>]
   \<and> renderLogList True (currentSeatLogs (fold (status_update unchanged_table) vanish_snapshots initial_page)) ''A''
       = Some (LogEntries [(''10:00:01'', ''Empty'' @ arrow @ ''Occupied'')])"
  by code_simp

section \<open>The replay loop\<close>

lemma intervalTick_sim [simp]:
  "simulationData (intervalTick U st) = simulationData st"
  by (simp add: intervalTick_def runUpdateStep_def Let_def)

lemma ticks_sim [simp]: "simulationData (ticks U n st) = simulationData st"
  by (induction n) simp_all





text \<open>
  With a single frame the cursor starts at 1, which is already past the end: every tick
  reads \<^verbatim>\<open>undefined\<close>, throws, and leaves the page as loaded.
\<close>

lemma single_frame_replay_throws:
  assumes "startSimulationLoop U (initial_sim [frame]) = Some s0"
  shows "ticks U n s0 = s0 \<and> runUpdateStep U (ticks U n s0) = Inl TypeError"
proof -
  have s0: "currentIndex s0 = 1" "simulationData s0 = [frame]"
    using assms by (auto simp: startSimulationLoop_def initial_sim_def split: prod.splits)
  then have err: "runUpdateStep U s0 = Inl TypeError"
    by (simp add: runUpdateStep_def)
  then have "intervalTick U s0 = s0" by (simp add: intervalTick_def)
  then have "ticks U n s0 = s0" by (induction n) simp_all
  with err show ?thesis by simp
qed


end
